theory Spec2Isabelle
  imports Complex_Main "HOL-Library.Sublist" "HOL-Library.Multiset" "HOL-Library.Log_Nat"
begin

section \<open>Strings\<close>

text \<open>
  A JavaScript string is a sequence of UTF-16 code units. The model covers the code units
  U+0000 to U+00FF: a \<^typ>\<open>string\<close> is a list of 8-bit characters, each read as the code
  unit of the same number (Latin-1). On this range \<open>toLowerCase\<close> maps a code unit to a
  code unit, so it never changes the length of a string.
\<close>

definition lower_char :: "char \<Rightarrow> char" where
  "lower_char c =
     (let n = (of_char c :: nat)
      in if (65 \<le> n \<and> n \<le> 90) \<or> (192 \<le> n \<and> n \<le> 222 \<and> n \<noteq> 215)
         then char_of (n + 32) else c)"

definition toLowerCase :: "string \<Rightarrow> string" where
  "toLowerCase s = map lower_char s"

text \<open>
  The white space and line terminators of ECMAScript below U+0100: tab, line feed,
  vertical tab, form feed, carriage return, space and no-break space. \<open>trim\<close> and the
  regular expression class \<open>\s\<close> use the same set.
\<close>

definition is_space :: "char \<Rightarrow> bool" where
  "is_space c = ((of_char c :: nat) \<in> {9, 10, 11, 12, 13, 32, 160})"

definition trim :: "string \<Rightarrow> string" where
  "trim s = rev (dropWhile is_space (rev (dropWhile is_space s)))"

text \<open>\<open>t.startsWith(q)\<close>: the first \<open>|q|\<close> code units of \<open>t\<close> are \<open>q\<close>.\<close>

fun startsWith :: "string \<Rightarrow> string \<Rightarrow> bool" where
  "startsWith t [] = True"
| "startsWith [] (c # q) = False"
| "startsWith (d # t) (c # q) = (d = c \<and> startsWith t q)"

text \<open>\<open>t.includes(q)\<close>: \<open>q\<close> occurs in \<open>t\<close> at some position.\<close>

fun includes_str :: "string \<Rightarrow> string \<Rightarrow> bool" where
  "includes_str [] q = startsWith [] q"
| "includes_str (d # t) q = (startsWith (d # t) q \<or> includes_str t q)"

text \<open>
  \<open>t.split(/\s+/)\<close>: the pieces of \<open>t\<close> between maximal runs of white space. A run at
  the start or at the end of \<open>t\<close> leaves an empty piece there, and the empty string
  splits into one empty piece.
\<close>

function split_ws :: "string \<Rightarrow> string list" where
  "split_ws s =
     (let w = takeWhile (\<lambda>c. \<not> is_space c) s;
          r = dropWhile (\<lambda>c. \<not> is_space c) s
      in if r = [] then [w] else w # split_ws (dropWhile is_space r))"
  by pat_completeness auto
termination
proof (relation "measure length")
  fix s :: string and w r :: string
  assume r: "r = dropWhile (\<lambda>c. \<not> is_space c) s" and ne: "r \<noteq> []"
  from ne obtain c r' where cr: "r = c # r'" by (cases r) auto
  have "length (dropWhile is_space r) \<le> length r"
    by (rule length_dropWhile_le)
  moreover have "length r \<le> length s"
    unfolding r by (rule length_dropWhile_le)
  moreover have "is_space c"
    using cr r by (metis hd_dropWhile list.sel(1) ne)
  then have "length (dropWhile is_space r) < length r"
    using cr length_dropWhile_le [of is_space r'] by simp
  ultimately show "(dropWhile is_space r, s) \<in> measure length" by simp
qed simp

declare split_ws.simps [simp del]

text \<open>\<open>s[0]\<close>: the first code unit, \<open>undefined\<close> (here \<open>None\<close>) for the empty string.\<close>

fun charAt0 :: "string \<Rightarrow> char option" where
  "charAt0 [] = None"
| "charAt0 (c # s) = Some c"

section \<open>Levenshtein distance\<close>

text \<open>
  \<open>levenshteinDistance(a, b)\<close> fills a matrix with one row for each prefix of \<open>b\<close> and
  one column for each prefix of \<open>a\<close>. Row \<open>0\<close> is \<open>0, 1, ..., |a|\<close>, and row \<open>i\<close> starts
  with \<open>i\<close>. \<open>fill_row\<close> is the inner loop: it runs over the characters of \<open>a\<close> with the
  part of the previous row from column \<open>j - 1\<close> on and the entry just written to the left.
\<close>

definition initial_row :: "string \<Rightarrow> nat list" where
  "initial_row a = [0 ..< Suc (length a)]"

fun fill_row :: "char \<Rightarrow> string \<Rightarrow> nat list \<Rightarrow> nat \<Rightarrow> nat list" where
  "fill_row bc (ac # as) (diag # up # prev) left =
     (let v = (if bc = ac then diag
               else min (diag + 1) (min (left + 1) (up + 1)))
      in v # fill_row bc as (up # prev) v)"
| "fill_row bc as prev left = []"

definition next_row :: "string \<Rightarrow> nat list \<Rightarrow> nat \<Rightarrow> char \<Rightarrow> nat list" where
  "next_row a prev i bc = i # fill_row bc a prev i"

text \<open>The outer loop: the rows \<open>i, i + 1, ...\<close> for the remaining characters of \<open>b\<close>.\<close>

fun fill_rows :: "string \<Rightarrow> string \<Rightarrow> nat \<Rightarrow> nat list \<Rightarrow> nat list list" where
  "fill_rows a [] i prev = []"
| "fill_rows a (bc # bs) i prev =
     (let cur = next_row a prev i bc in cur # fill_rows a bs (Suc i) cur)"

definition levenshtein_matrix :: "string \<Rightarrow> string \<Rightarrow> nat list list" where
  "levenshtein_matrix a b = initial_row a # fill_rows a b 1 (initial_row a)"

definition levenshteinDistance :: "string \<Rightarrow> string \<Rightarrow> nat" where
  "levenshteinDistance a b = levenshtein_matrix a b ! length b ! length a"

section \<open>Numbers\<close>

text \<open>
  A JavaScript number is an IEEE 754 double. A finite double is modelled by the rational
  number it denotes, and \<open>double x\<close> is the double nearest to the rational \<open>x\<close>, a tie
  going to the even significand of 53 bits. A division, subtraction or multiplication of
  the source is the exact operation followed by \<open>double\<close>, and a decimal literal such as
  \<open>0.95\<close> is \<open>double (95 / 100)\<close>. A comparison of two doubles is the comparison of the
  rationals.

  The exponent range of doubles is not modelled. A JavaScript string has fewer than
  \<open>2^53\<close> code units; up to there a length or a distance is a double as it is, and no
  operation of the scorer or the ranker leaves the range of the normal doubles.
\<close>

text \<open>The integer nearest to \<open>y\<close>, the even one of two that are equally near.\<close>

definition round_half_even :: "rat \<Rightarrow> int" where
  "round_half_even y =
     (let f = \<lfloor>y\<rfloor>; r = y - of_int f
      in if r < 1 / 2 then f
         else if 1 / 2 < r then f + 1
         else if even f then f else f + 1)"

text \<open>
  The binary exponent \<open>e\<close> of \<open>x \<noteq> 0\<close>, with \<open>2^e \<le> |x| < 2^(e + 1)\<close>, from the bit
  lengths of the numerator and the denominator.
\<close>

definition exponent :: "rat \<Rightarrow> int" where
  "exponent x =
     (case quotient_of \<bar>x\<bar> of
        (p, q) \<Rightarrow>
          let e0 = bitlen p - bitlen q
          in if 2 powi e0 \<le> \<bar>x\<bar> then e0 else e0 - 1)"

definition double :: "rat \<Rightarrow> rat" where
  "double x =
     (if x = 0 then 0
      else let ulp = 2 powi (exponent x - 52)
           in of_int (round_half_even (x / ulp)) * ulp)"

section \<open>Similarity scorer\<close>

datatype matchType = Exact | StartsWith | Contains | Word | Fuzzy

text \<open>
  The loop over the words of the target: the first word that equals the query or starts
  with it ends the loop; \<open>None\<close> when the loop runs to its end.
\<close>

fun word_loop :: "string \<Rightarrow> string list \<Rightarrow> (rat \<times> matchType) option" where
  "word_loop q [] = None"
| "word_loop q (w # ws) =
     (if w = q then Some (double (9 / 10), Word)
      else if startsWith w q then Some (double (8 / 10), Word)
      else word_loop q ws)"

definition fuzzy_score :: "string \<Rightarrow> string \<Rightarrow> rat" where
  "fuzzy_score q t =
     (let maxLen = max (length q) (length t);
          dist = levenshteinDistance q t;
          normalizedScore = double (1 - double (of_nat dist / of_nat maxLen))
      in if charAt0 q = charAt0 t then min 1 (double (normalizedScore * double (11 / 10)))
         else normalizedScore)"

definition calculateSimilarity :: "string \<Rightarrow> string \<Rightarrow> rat \<times> matchType" where
  "calculateSimilarity query target =
     (let q = trim (toLowerCase query);
          t = trim (toLowerCase target)
      in if q = t then (1, Exact)
         else if startsWith t q then (double (95 / 100), StartsWith)
         else if includes_str t q then (double (85 / 100), Contains)
         else case word_loop q (split_ws t) of
                Some r \<Rightarrow> r
              | None \<Rightarrow>
                  if max (length q) (length t) = 0 then (1, Exact)
                  else (fuzzy_score q t, Fuzzy))"

section \<open>Service normalization\<close>

datatype BeeperService =
    Whatsapp | Telegram | Signal | Instagram | Messenger | Discord | Slack | Linkedin
  | Twitter | Googlechat | Googlemessages | Googlevoice | Sms | Imessage | Matrix | Unknown

text \<open>A \<open>BeeperService\<close> is a string at run time; \<open>service_str\<close> is that string.\<close>

fun service_str :: "BeeperService \<Rightarrow> string" where
  "service_str Whatsapp = ''whatsapp''"
| "service_str Telegram = ''telegram''"
| "service_str Signal = ''signal''"
| "service_str Instagram = ''instagram''"
| "service_str Messenger = ''messenger''"
| "service_str Discord = ''discord''"
| "service_str Slack = ''slack''"
| "service_str Linkedin = ''linkedin''"
| "service_str Twitter = ''twitter''"
| "service_str Googlechat = ''googlechat''"
| "service_str Googlemessages = ''googlemessages''"
| "service_str Googlevoice = ''googlevoice''"
| "service_str Sms = ''sms''"
| "service_str Imessage = ''imessage''"
| "service_str Matrix = ''matrix''"
| "service_str Unknown = ''unknown''"

text \<open>The entries of \<open>serviceMap\<close>, in the order the object literal lists them.\<close>

definition serviceMap :: "(string \<times> BeeperService) list" where
  "serviceMap =
     [(''whatsapp'', Whatsapp), (''telegram'', Telegram), (''signal'', Signal),
      (''instagram'', Instagram), (''messenger'', Messenger), (''facebook'', Messenger),
      (''discord'', Discord), (''slack'', Slack), (''linkedin'', Linkedin),
      (''twitter'', Twitter), (''x'', Twitter), (''googlechat'', Googlechat),
      (''google-chat'', Googlechat), (''googlemessages'', Googlemessages),
      (''google-messages'', Googlemessages), (''gmessages'', Googlemessages),
      (''g-messages'', Googlemessages), (''androidsms'', Googlemessages),
      (''android'', Googlemessages), (''rcs'', Googlemessages),
      (''messages'', Googlemessages), (''google messages'', Googlemessages),
      (''texts'', Googlemessages), (''googlevoice'', Googlevoice),
      (''google-voice'', Googlevoice), (''sms'', Sms), (''imessage'', Imessage),
      (''matrix'', Matrix), (''beeper (matrix)'', Matrix), (''beeper'', Matrix)]"

text \<open>
  \<open>serviceMap\<close> is an object literal, so the property read \<open>serviceMap[normalized]\<close>
  also finds what the object inherits from \<open>Object.prototype\<close>. Property names are case
  sensitive and \<open>normalized\<close> is lower-cased, so of the inherited names only
  \<open>constructor\<close> and \<open>__proto__\<close> can be read: the first is the function \<open>Object\<close>, the
  second the object \<open>Object.prototype\<close>.
\<close>

datatype inherited = ObjectConstructor | ObjectPrototype

datatype js_value = Service BeeperService | Inherited inherited

definition inherited_member :: "string \<Rightarrow> inherited option" where
  "inherited_member k =
     (if k = ''constructor'' then Some ObjectConstructor
      else if k = ''__proto__'' then Some ObjectPrototype
      else None)"

text \<open>The property read: an own property first, then an inherited one, else \<open>undefined\<close>.\<close>

definition serviceMap_get :: "string \<Rightarrow> js_value option" where
  "serviceMap_get k =
     (case map_of serviceMap k of
        Some v \<Rightarrow> Some (Service v)
      | None \<Rightarrow> map_option Inherited (inherited_member k))"

text \<open>
  The loop over \<open>Object.entries(serviceMap)\<close>: the first entry, in the order of the
  literal, whose key has at least three characters and starts \<open>normalized\<close>.
\<close>

fun prefix_loop :: "string \<Rightarrow> (string \<times> BeeperService) list \<Rightarrow> BeeperService option" where
  "prefix_loop normalized [] = None"
| "prefix_loop normalized ((key, val) # es) =
     (if length key \<ge> 3 \<and> startsWith normalized key then Some val
      else prefix_loop normalized es)"

text \<open>
  \<open>parseService\<close>: \<open>undefined\<close> (\<open>None\<close>) and the empty string are falsy and give
  \<open>unknown\<close>. Every value the property read can give is truthy.
\<close>

fun parseService :: "string option \<Rightarrow> js_value" where
  "parseService None = Service Unknown"
| "parseService (Some serviceString) =
     (if serviceString = [] then Service Unknown
      else let normalized = toLowerCase serviceString
           in case serviceMap_get normalized of
                Some v \<Rightarrow> v
              | None \<Rightarrow>
                  (case prefix_loop normalized serviceMap of
                     Some val \<Rightarrow> Service val
                   | None \<Rightarrow> Service Unknown))"

section \<open>Match ranker\<close>

record ChatMatch =
  chat_id :: string
  title :: string
  network :: string
  accountID :: "string option"
  chat_type :: "string option"
  lastActivity :: "string option"
  unreadCount :: "int option"
  isMuted :: "bool option"
  isArchived :: "bool option"

record MatchResult =
  chat :: ChatMatch
  score :: rat
  matchType :: matchType

text \<open>
  The options of \<open>rankChatMatches\<close>; an absent field is \<open>None\<close>. \<open>maxResults\<close> is a
  JavaScript number that is handed to \<open>slice\<close>; the model takes the integers.
\<close>

record RankOptions =
  service :: "string option"
  minScore :: "rat option"
  maxResults :: "int option"

datatype js_error = TypeError

text \<open>
  The callback of the service pre-filter. \<open>chatService.toLowerCase()\<close> is a method call
  on what \<open>parseService\<close> returned: on a string it lower-cases, on \<open>Object\<close> or
  \<open>Object.prototype\<close>, which have no such method, it throws a \<open>TypeError\<close>.
\<close>

definition service_matches :: "string \<Rightarrow> ChatMatch \<Rightarrow> js_error + bool" where
  "service_matches targetService c =
     (case parseService (Some (network c)) of
        Service chatService \<Rightarrow> Inr (toLowerCase (service_str chatService) = targetService)
      | Inherited m \<Rightarrow> Inl TypeError)"

text \<open>\<open>matches.filter(callback)\<close>: the first call that throws ends the whole filter.\<close>

fun service_filter :: "string \<Rightarrow> ChatMatch list \<Rightarrow> js_error + ChatMatch list" where
  "service_filter targetService [] = Inr []"
| "service_filter targetService (c # cs) =
     (case service_matches targetService c of
        Inl e \<Rightarrow> Inl e
      | Inr keep \<Rightarrow>
          (case service_filter targetService cs of
             Inl e \<Rightarrow> Inl e
           | Inr rest \<Rightarrow> Inr (if keep then c # rest else rest)))"

definition score_chat :: "string \<Rightarrow> ChatMatch \<Rightarrow> MatchResult" where
  "score_chat query c =
     (case calculateSimilarity query (title c) of
        (s, mt) \<Rightarrow> \<lparr>chat = c, score = s, matchType = mt\<rparr>)"

text \<open>
  \<open>Array.prototype.sort\<close> with a comparator is a stable sort: \<open>a\<close> stays before \<open>b\<close>
  unless the comparator is positive on \<open>(a, b)\<close>. The model is the stable insertion sort.
  The comparator of the ranker is \<open>b.score - a.score\<close>, a subtraction of doubles.
\<close>

fun insert_cmp :: "('a \<Rightarrow> 'a \<Rightarrow> rat) \<Rightarrow> 'a \<Rightarrow> 'a list \<Rightarrow> 'a list" where
  "insert_cmp cmp x [] = [x]"
| "insert_cmp cmp x (y # ys) =
     (if cmp x y \<le> 0 then x # y # ys else y # insert_cmp cmp x ys)"

definition js_sort :: "('a \<Rightarrow> 'a \<Rightarrow> rat) \<Rightarrow> 'a list \<Rightarrow> 'a list" where
  "js_sort cmp xs = foldr (insert_cmp cmp) xs []"

text \<open>
  \<open>xs.slice(0, k)\<close>: a negative \<open>k\<close> counts from the end of the array, so it drops the
  last \<open>-k\<close> entries; otherwise the first \<open>k\<close> entries are kept.
\<close>

definition js_slice0 :: "int \<Rightarrow> 'a list \<Rightarrow> 'a list" where
  "js_slice0 k xs =
     (if k < 0 then take (nat (int (length xs) + k)) xs else take (nat k) xs)"

definition default_minScore :: rat where
  "default_minScore = double (4 / 10)"

definition default_maxResults :: int where
  "default_maxResults = 5"

definition rankChatMatches ::
    "ChatMatch list \<Rightarrow> string \<Rightarrow> RankOptions option \<Rightarrow> js_error + MatchResult list" where
  "rankChatMatches chats query options =
     (let opts = (case options of
                    None \<Rightarrow> \<lparr>service = None, minScore = None, maxResults = None\<rparr>
                  | Some given \<Rightarrow> given);
          minScore' = (case minScore opts of None \<Rightarrow> default_minScore | Some m \<Rightarrow> m);
          maxResults' = (case maxResults opts of None \<Rightarrow> default_maxResults | Some k \<Rightarrow> k);
          filtered = (case service opts of
                        None \<Rightarrow> Inr chats
                      | Some s \<Rightarrow>
                          if s = [] then Inr chats
                          else service_filter (toLowerCase s) chats)
      in case filtered of
           Inl e \<Rightarrow> Inl e
         | Inr matches \<Rightarrow>
             Inr (js_slice0 maxResults'
                    (js_sort (\<lambda>a b. double (score b - score a))
                       (filter (\<lambda>m. score m \<ge> minScore')
                          (map (score_chat query) matches)))))"

section \<open>Reference definitions\<close>

text \<open>
  The recurrence of the edit distance, on the reversed prefixes: unit cost for an
  insertion, a deletion and a substitution, and the length of the other string when one
  string is empty. The matrix of \<open>levenshteinDistance\<close> is compared with it below.
\<close>

fun lev_rec :: "string \<Rightarrow> string \<Rightarrow> nat" where
  "lev_rec [] ys = length ys"
| "lev_rec xs [] = length xs"
| "lev_rec (x # xs) (y # ys) =
     (if x = y then lev_rec xs ys
      else Suc (min (lev_rec xs ys) (min (lev_rec (x # xs) ys) (lev_rec xs (y # ys)))))"

text \<open>
  One row of the matrix as the recurrence gives it: the distances from the reversed
  prefix \<open>rb\<close> of \<open>b\<close> to the prefixes of \<open>a\<close>, from the reversed prefix \<open>ra\<close> on.
\<close>

fun lev_row :: "string \<Rightarrow> string \<Rightarrow> string \<Rightarrow> nat list" where
  "lev_row rb ra [] = [lev_rec rb ra]"
| "lev_row rb ra (x # as) = lev_rec rb ra # lev_row rb (x # ra) as"

text \<open>The priority order of the match types: exact, startsWith, word, contains, fuzzy.\<close>

fun priority :: "matchType \<Rightarrow> nat" where
  "priority Exact = 4"
| "priority StartsWith = 3"
| "priority Word = 2"
| "priority Contains = 1"
| "priority Fuzzy = 0"

text \<open>
  The longest key of at least three characters that is a prefix of \<open>normalized\<close>, with
  its tag; of two such keys of the same length the earlier one.
\<close>

fun longest_prefix_entry ::
    "string \<Rightarrow> (string \<times> BeeperService) list \<Rightarrow> (string \<times> BeeperService) option" where
  "longest_prefix_entry normalized [] = None"
| "longest_prefix_entry normalized ((key, val) # es) =
     (let rest = longest_prefix_entry normalized es
      in if length key \<ge> 3 \<and> prefix key normalized
         then (case rest of
                 None \<Rightarrow> Some (key, val)
               | Some (key', val') \<Rightarrow>
                   if length key' > length key then Some (key', val') else Some (key, val))
         else rest)"

text \<open>
  Service normalization in the words of the specification: the exact key, else the
  longest key that is a prefix, else \<open>unknown\<close>.
\<close>

definition parseService_spec :: "string option \<Rightarrow> BeeperService" where
  "parseService_spec serviceString =
     (case serviceString of
        None \<Rightarrow> Unknown
      | Some s \<Rightarrow>
          if s = [] then Unknown
          else case map_of serviceMap (toLowerCase s) of
                 Some val \<Rightarrow> val
               | None \<Rightarrow>
                   (case longest_prefix_entry (toLowerCase s) serviceMap of
                      Some (key, val) \<Rightarrow> val
                    | None \<Rightarrow> Unknown))"

text \<open>
  The ranking pipeline in the words of the specification: score every candidate, keep
  the scores of at least \<open>minScore\<close>, sort by descending score with the library's stable
  sort, and keep the first \<open>maxResults\<close> entries.
\<close>

definition rank_pipeline ::
    "rat \<Rightarrow> nat \<Rightarrow> string \<Rightarrow> ChatMatch list \<Rightarrow> MatchResult list" where
  "rank_pipeline min_score max_results query candidates =
     take max_results
       (sort_key (\<lambda>m. - score m)
          (filter (\<lambda>m. min_score \<le> score m)
             (map (score_chat query) candidates)))"

text \<open>
  The tag a candidate's network normalizes to, and the service pre-filter as the ranker
  applies it: the tag is compared with the lower-cased filter string.
\<close>

definition network_tag :: "ChatMatch \<Rightarrow> string" where
  "network_tag c = (case parseService (Some (network c)) of
                      Service tag \<Rightarrow> service_str tag
                    | Inherited m \<Rightarrow> [])"

definition network_is_inherited :: "ChatMatch \<Rightarrow> bool" where
  "network_is_inherited c = (inherited_member (toLowerCase (network c)) \<noteq> None)"

text \<open>
  The options in force: \<open>options || {}\<close> with the defaults of the destructuring, and
  the service filter, which is applied only when the string is truthy (not empty).
\<close>

definition minScore_of :: "RankOptions option \<Rightarrow> rat" where
  "minScore_of options =
     (case options of
        None \<Rightarrow> default_minScore
      | Some given \<Rightarrow> (case minScore given of None \<Rightarrow> default_minScore | Some m \<Rightarrow> m))"

definition maxResults_of :: "RankOptions option \<Rightarrow> int" where
  "maxResults_of options =
     (case options of
        None \<Rightarrow> default_maxResults
      | Some given \<Rightarrow> (case maxResults given of None \<Rightarrow> default_maxResults | Some k \<Rightarrow> k))"

definition service_of :: "RankOptions option \<Rightarrow> string option" where
  "service_of options =
     (case options of
        None \<Rightarrow> None
      | Some given \<Rightarrow>
          (case service given of
             None \<Rightarrow> None
           | Some s \<Rightarrow> if s = [] then None else Some s))"

definition prefiltered :: "string option \<Rightarrow> ChatMatch list \<Rightarrow> ChatMatch list" where
  "prefiltered filter_string chats =
     (case filter_string of
        None \<Rightarrow> chats
      | Some s \<Rightarrow> filter (\<lambda>c. network_tag c = toLowerCase s) chats)"

text \<open>A candidate with the given title and network and no optional field, for examples.\<close>

definition chat_of :: "string \<Rightarrow> string \<Rightarrow> ChatMatch" where
  "chat_of chat_title chat_network =
     \<lparr>chat_id = ''id'', title = chat_title, network = chat_network, accountID = None,
      chat_type = None, lastActivity = None, unreadCount = None, isMuted = None,
      isArchived = None\<rparr>"

text \<open>
  Any two entries whose keys have at least three characters, one key a prefix of the
  other, carry the same tag.
\<close>

definition tags_agree :: "(string \<times> BeeperService) list \<Rightarrow> bool" where
  "tags_agree es =
     list_all (\<lambda>(k1, v1). list_all (\<lambda>(k2, v2).
        \<not> (3 \<le> length k1 \<and> 3 \<le> length k2 \<and> prefix k1 k2) \<or> v1 = v2) es) es"

section \<open>Properties of the rounding\<close>

lemma round_half_even_le: "y \<le> of_int n \<Longrightarrow> round_half_even y \<le> n"
proof -
  assume le: "y \<le> of_int n"
  then have f: "\<lfloor>y\<rfloor> \<le> n" by (simp add: floor_le_iff)
  show ?thesis
  proof (cases "\<lfloor>y\<rfloor> = n")
    case True
    then have "y - of_int \<lfloor>y\<rfloor> \<le> 0" using le by simp
    then have "y - of_int \<lfloor>y\<rfloor> < 1 / 2" by linarith
    then show ?thesis using True by (simp add: round_half_even_def Let_def)
  next
    case False
    with f have "\<lfloor>y\<rfloor> + 1 \<le> n" by simp
    then show ?thesis by (auto simp: round_half_even_def Let_def)
  qed
qed

lemma round_half_even_ge: "of_int n \<le> y \<Longrightarrow> n \<le> round_half_even y"
proof -
  assume "of_int n \<le> y"
  then have "n \<le> \<lfloor>y\<rfloor>" by (simp add: le_floor_iff)
  then show ?thesis by (auto simp: round_half_even_def Let_def)
qed

text \<open>The exponent is not too large: \<open>2^e \<le> |x|\<close>.\<close>

lemma exponent_le:
  assumes "x \<noteq> 0"
  shows "2 powi (exponent x) \<le> \<bar>x\<bar>"
proof -
  obtain p q where pq: "quotient_of \<bar>x\<bar> = (p, q)" by (cases "quotient_of \<bar>x\<bar>")
  have q: "0 < q" using pq by (rule quotient_of_denom_pos)
  have x: "\<bar>x\<bar> = of_int p / of_int q" using pq by (rule quotient_of_div)
  have "0 < \<bar>x\<bar>" using assms by simp
  then have p: "0 < p" using q unfolding x by (simp add: zero_less_divide_iff)
  show ?thesis
  proof (cases "2 powi (bitlen p - bitlen q) \<le> \<bar>x\<bar>")
    case True
    then show ?thesis by (simp add: exponent_def pq Let_def)
  next
    case False
    then have ex: "exponent x = bitlen p - bitlen q - 1"
      by (simp add: exponent_def pq Let_def)
    have bp: "1 \<le> bitlen p" using p bitlen_eq_zero_iff [of p] bitlen_nonneg [of p] by linarith
    have bq: "0 \<le> bitlen q" by (rule bitlen_nonneg)
    have "(2::int) ^ nat (bitlen p - 1) \<le> p" using bitlen_bounds [OF p] by simp
    then have "(of_int ((2::int) ^ nat (bitlen p - 1)) :: rat) \<le> of_int p"
      by (simp only: of_int_le_iff)
    then have lo: "(2::rat) powi (bitlen p - 1) \<le> of_int p"
      using bp by (simp add: power_int_def)
    have "q < (2::int) ^ nat (bitlen q)" using bitlen_bounds [OF q] by simp
    then have "(of_int q :: rat) < of_int ((2::int) ^ nat (bitlen q))"
      by (simp only: of_int_less_iff)
    then have hi: "(of_int q :: rat) \<le> 2 powi (bitlen q)"
      using bq by (simp add: power_int_def)
    have "(2::rat) powi (bitlen p - bitlen q - 1) = 2 powi (bitlen p - 1) / 2 powi (bitlen q)"
      by (simp add: power_int_diff [symmetric] algebra_simps)
    also have "\<dots> \<le> of_int p / 2 powi (bitlen q)"
      using lo by (simp add: divide_right_mono)
    also have "\<dots> \<le> of_int p / of_int q"
      using hi p q by (simp add: divide_left_mono)
    finally show ?thesis
      by (simp only: ex x)
  qed
qed

text \<open>Nor is it too small: \<open>|x| < 2^(e + 1)\<close>.\<close>

lemma exponent_less:
  assumes "x \<noteq> 0"
  shows "\<bar>x\<bar> < 2 powi (exponent x + 1)"
proof -
  obtain p q where pq: "quotient_of \<bar>x\<bar> = (p, q)" by (cases "quotient_of \<bar>x\<bar>")
  have q: "0 < q" using pq by (rule quotient_of_denom_pos)
  have x: "\<bar>x\<bar> = of_int p / of_int q" using pq by (rule quotient_of_div)
  have "0 < \<bar>x\<bar>" using assms by simp
  then have p: "0 < p" using q unfolding x by (simp add: zero_less_divide_iff)
  show ?thesis
  proof (cases "2 powi (bitlen p - bitlen q) \<le> \<bar>x\<bar>")
    case False
    then have "exponent x = bitlen p - bitlen q - 1"
      by (simp add: exponent_def pq Let_def)
    with False show ?thesis by simp
  next
    case True
    then have ex: "exponent x = bitlen p - bitlen q"
      by (simp add: exponent_def pq Let_def)
    have bq: "1 \<le> bitlen q" using q bitlen_eq_zero_iff [of q] bitlen_nonneg [of q] by linarith
    have bp: "0 \<le> bitlen p" by (rule bitlen_nonneg)
    have "p < (2::int) ^ nat (bitlen p)" using bitlen_bounds [OF p] by simp
    then have "(of_int p :: rat) < of_int ((2::int) ^ nat (bitlen p))"
      by (simp only: of_int_less_iff)
    then have hi: "(of_int p :: rat) < 2 powi (bitlen p)"
      using bp by (simp add: power_int_def)
    have "(2::int) ^ nat (bitlen q - 1) \<le> q" using bitlen_bounds [OF q] by simp
    then have "(of_int ((2::int) ^ nat (bitlen q - 1)) :: rat) \<le> of_int q"
      by (simp only: of_int_le_iff)
    then have lo: "(2::rat) powi (bitlen q - 1) \<le> of_int q"
      using bq by (simp add: power_int_def)
    have "(of_int p :: rat) / of_int q < 2 powi (bitlen p) / of_int q"
      using hi q by (simp add: divide_strict_right_mono)
    also have "\<dots> \<le> 2 powi (bitlen p) / 2 powi (bitlen q - 1)"
      using lo q by (intro divide_left_mono) simp_all
    also have "\<dots> = 2 powi (bitlen p - bitlen q + 1)"
      by (simp add: power_int_diff [symmetric] algebra_simps)
    finally show ?thesis
      by (simp only: ex x)
  qed
qed

lemma double_pos:
  assumes "0 < x"
  shows "0 < double x"
proof -
  define ulp :: rat where "ulp = 2 powi (exponent x - 52)"
  have u: "0 < ulp" by (simp add: ulp_def)
  have "ulp = 2 powi (exponent x) / 2 powi 52"
    unfolding ulp_def by (simp add: power_int_diff)
  also have "\<dots> \<le> 2 powi (exponent x)"
    by (simp add: divide_le_eq)
  also have "\<dots> \<le> x" using exponent_le [of x] assms by simp
  finally have "1 \<le> x / ulp" using u by (simp add: le_divide_eq)
  then have "1 \<le> round_half_even (x / ulp)"
    using round_half_even_ge [of 1 "x / ulp"] by simp
  then have "(0::rat) < of_int (round_half_even (x / ulp))" by simp
  then have "0 < of_int (round_half_even (x / ulp)) * ulp" using u by simp
  then show ?thesis using assms by (simp add: double_def Let_def ulp_def)
qed

lemma double_neg:
  assumes "x < 0"
  shows "double x < 0"
proof -
  define ulp :: rat where "ulp = 2 powi (exponent x - 52)"
  have u: "0 < ulp" by (simp add: ulp_def)
  have "ulp = 2 powi (exponent x) / 2 powi 52"
    unfolding ulp_def by (simp add: power_int_diff)
  also have "\<dots> \<le> 2 powi (exponent x)"
    by (simp add: divide_le_eq)
  also have "\<dots> \<le> - x" using exponent_le [of x] assms by simp
  finally have "x / ulp \<le> - 1" using u by (simp add: divide_le_eq)
  then have "round_half_even (x / ulp) \<le> - 1"
    using round_half_even_le [of "x / ulp" "- 1"] by simp
  then have "of_int (round_half_even (x / ulp)) < (0::rat)" by simp
  then have "of_int (round_half_even (x / ulp)) * ulp < 0" using u by (simp add: mult_less_0_iff)
  then show ?thesis using assms by (simp add: double_def Let_def ulp_def)
qed

lemma double_0: "double 0 = 0"
  by (simp add: double_def)

lemma double_1: "double 1 = 1"
  by code_simp

lemma double_nonneg: "0 \<le> x \<Longrightarrow> 0 \<le> double x"
  using double_pos [of x] double_0 by (cases "x = 0") (simp_all add: less_le)

text \<open>Rounding keeps the sign, so the comparator of the ranker has the sign of the exact difference.\<close>

lemma double_le_0_iff: "double x \<le> 0 \<longleftrightarrow> x \<le> 0"
  using double_pos [of x] double_neg [of x] double_0 by (cases "x = 0"; cases "0 < x") auto

lemma double_le_1:
  assumes "x \<le> 1"
  shows "double x \<le> 1"
proof (cases "0 < x")
  case False
  then have "double x \<le> 0" by (simp add: double_le_0_iff)
  then show ?thesis by simp
next
  case True
  define k where "k = nat (52 - exponent x)"
  have "(2::rat) powi (exponent x) \<le> 1" using exponent_le [of x] True assms by simp
  then have e: "exponent x \<le> 0"
  proof (rule contrapos_pp)
    assume "\<not> exponent x \<le> 0"
    then have "0 \<le> exponent x - 1" by simp
    then have "(1::rat) \<le> 2 powi (exponent x - 1)" by (simp add: power_int_def)
    then have "(2::rat) \<le> 2 powi (exponent x)" by (simp add: power_int_diff)
    then show "\<not> (2::rat) powi (exponent x) \<le> 1" by simp
  qed
  then have ulp: "(2::rat) powi (exponent x - 52) = 1 / 2 ^ k"
    by (simp add: power_int_def k_def inverse_eq_divide power_one_over)
  have "x / (1 / 2 ^ k) \<le> of_int (2 ^ k)" using assms by simp
  then have "round_half_even (x / (1 / 2 ^ k)) \<le> 2 ^ k" by (rule round_half_even_le)
  then have "(of_int (round_half_even (x / (1 / 2 ^ k))) :: rat) \<le> of_int (2 ^ k)"
    by (simp only: of_int_le_iff)
  then have "of_int (round_half_even (x / (1 / 2 ^ k))) * (1 / 2 ^ k) \<le> (1::rat)"
    by (simp add: divide_le_eq)
  then show ?thesis using True by (simp add: double_def Let_def ulp)
qed

text \<open>The score literals of the source, as doubles, are in order.\<close>

lemma score_literals:
  "0 \<le> double (85 / 100) \<and> double (85 / 100) \<le> double (95 / 100) \<and> double (95 / 100) \<le> 1"
  by code_simp

section \<open>Properties of the Levenshtein distance\<close>

lemma lev_rec_Nil2: "lev_rec xs [] = length xs"
  by (cases xs) simp_all

lemma lev_rec_sym: "lev_rec xs ys = lev_rec ys xs"
  by (induction xs ys rule: lev_rec.induct)
     (auto simp: lev_rec_Nil2 min.commute min.left_commute)

lemma lev_rec_le_max: "lev_rec xs ys \<le> max (length xs) (length ys)"
  by (induction xs ys rule: lev_rec.induct) auto

lemma lev_row_hd: "\<exists>r. lev_row rb ra as = lev_rec rb ra # r"
  by (cases as) simp_all

lemma length_lev_row: "length (lev_row rb ra as) = Suc (length as)"
  by (induction as arbitrary: ra) simp_all

lemma lev_row_last: "lev_row rb ra as ! length as = lev_rec rb (rev as @ ra)"
  by (induction as arbitrary: ra) simp_all

lemma fill_row_lev_row:
  "fill_row bc as (lev_row rb ra as) (lev_rec (bc # rb) ra) = tl (lev_row (bc # rb) ra as)"
proof (induction as arbitrary: ra)
  case Nil
  show ?case by simp
next
  case (Cons x as)
  obtain r where r: "lev_row rb (x # ra) as = lev_rec rb (x # ra) # r"
    using lev_row_hd by blast
  obtain r' where r': "lev_row (bc # rb) (x # ra) as = lev_rec (bc # rb) (x # ra) # r'"
    using lev_row_hd by blast
  have v: "(if bc = x then lev_rec rb ra
            else min (lev_rec rb ra + 1) (min (lev_rec (bc # rb) ra + 1) (lev_rec rb (x # ra) + 1)))
           = lev_rec (bc # rb) (x # ra)"
    by simp
  have "fill_row bc (x # as) (lev_row rb ra (x # as)) (lev_rec (bc # rb) ra)
        = lev_rec (bc # rb) (x # ra) # fill_row bc as (lev_row rb (x # ra) as) (lev_rec (bc # rb) (x # ra))"
    using v by (simp add: r Let_def del: lev_rec.simps)
  also have "\<dots> = lev_rec (bc # rb) (x # ra) # tl (lev_row (bc # rb) (x # ra) as)"
    by (simp only: Cons.IH)
  also have "\<dots> = tl (lev_row (bc # rb) ra (x # as))"
    by (simp add: r')
  finally show ?case .
qed

lemma next_row_lev_row:
  "next_row a (lev_row rb [] a) (Suc (length rb)) bc = lev_row (bc # rb) [] a"
proof -
  have "lev_rec (bc # rb) [] = Suc (length rb)" by simp
  then have "next_row a (lev_row rb [] a) (Suc (length rb)) bc
             = lev_rec (bc # rb) [] # tl (lev_row (bc # rb) [] a)"
    unfolding next_row_def using fill_row_lev_row [of bc a rb "[]"] by simp
  also have "\<dots> = lev_row (bc # rb) [] a"
    using lev_row_hd [of "bc # rb" "[]" a] by auto
  finally show ?thesis .
qed

lemma lev_row_Nil: "lev_row [] ra as = [length ra ..< Suc (length ra + length as)]"
proof (induction as arbitrary: ra)
  case Nil
  show ?case by simp
next
  case (Cons x as)
  show ?case using Cons.IH [of "x # ra"] by (simp add: upt_rec)
qed

lemma initial_row_lev_row: "initial_row a = lev_row [] [] a"
  by (simp add: initial_row_def lev_row_Nil)

lemma fill_rows_last:
  "(lev_row rb [] a # fill_rows a bs (Suc (length rb)) (lev_row rb [] a)) ! length bs
   = lev_row (rev bs @ rb) [] a"
proof (induction bs arbitrary: rb)
  case Nil
  show ?case by simp
next
  case (Cons bc bs)
  show ?case using Cons.IH [of "bc # rb"] by (simp add: next_row_lev_row Let_def)
qed

lemma length_fill_rows: "length (fill_rows a bs i prev) = length bs"
  by (induction bs arbitrary: i prev) (simp_all add: Let_def)

lemma levenshtein_matrix_last_row:
  "levenshtein_matrix a b ! length b = lev_row (rev b) [] a"
  unfolding levenshtein_matrix_def initial_row_lev_row
  using fill_rows_last [of "[]" a b] by simp

text \<open>The entry that \<open>levenshteinDistance\<close> returns is inside the matrix.\<close>

lemma levenshtein_matrix_in_range:
  "length b < length (levenshtein_matrix a b)
   \<and> length a < length (levenshtein_matrix a b ! length b)"
  by (simp add: levenshtein_matrix_last_row length_lev_row)
     (simp add: levenshtein_matrix_def length_fill_rows)

lemma levenshteinDistance_lev_rec: "levenshteinDistance a b = lev_rec (rev b) (rev a)"
  by (simp add: levenshteinDistance_def levenshtein_matrix_last_row lev_row_last)

text \<open>
  Claim C9: the Levenshtein distance is symmetric: for every pair of strings \<open>a\<close> and
  \<open>b\<close>, \<open>levenshteinDistance(a, b)\<close> equals \<open>levenshteinDistance(b, a)\<close>.
\<close>

theorem levenshteinDistance_symmetric:
  "levenshteinDistance a b = levenshteinDistance b a"
  by (simp add: levenshteinDistance_lev_rec lev_rec_sym)

section \<open>Properties of the similarity scorer\<close>

lemma startsWith_prefix: "startsWith t q = prefix q t"
  by (induction t q rule: startsWith.induct) auto

lemma includes_str_sublist: "includes_str t q = sublist q t"
  by (induction t) (auto simp: startsWith_prefix sublist_Cons_right)

lemma split_ws_sublist: "w \<in> set (split_ws s) \<Longrightarrow> sublist w s"
proof (induction s rule: split_ws.induct)
  case (1 s)
  define tw where "tw = takeWhile (\<lambda>c. \<not> is_space c) s"
  define r where "r = dropWhile (\<lambda>c. \<not> is_space c) s"
  have tw: "sublist tw s"
    unfolding tw_def by (metis prefix_imp_sublist takeWhile_is_prefix)
  have unfold: "split_ws s = (if r = [] then [tw] else tw # split_ws (dropWhile is_space r))"
    unfolding tw_def r_def by (subst split_ws.simps) (simp only: Let_def)
  show ?case
  proof (cases "r = []")
    case True
    then have "split_ws s = [tw]" using unfold by simp
    with "1.prems" tw show ?thesis by simp
  next
    case False
    then have "split_ws s = tw # split_ws (dropWhile is_space r)" using unfold by simp
    with "1.prems"
    consider "w = tw" | "w \<in> set (split_ws (dropWhile is_space r))"
      by auto
    then show ?thesis
    proof cases
      case 1
      with tw show ?thesis by simp
    next
      case 2
      then have "sublist w (dropWhile is_space r)"
        using "1.IH" [OF refl refl] False unfolding r_def by simp
      moreover have "suffix (dropWhile is_space r) s"
        unfolding r_def by (meson suffix_dropWhile suffix_order.trans)
      ultimately show ?thesis
        by (meson suffix_imp_sublist sublist_order.order.trans)
    qed
  qed
qed

lemma word_loop_None: "word_loop q ws = None \<longleftrightarrow> (\<forall>w\<in>set ws. w \<noteq> q \<and> \<not> prefix q w)"
  by (induction ws) (auto simp: startsWith_prefix)

lemma word_loop_Some: "word_loop q ws = Some r \<Longrightarrow> \<exists>w\<in>set ws. prefix q w"
  by (induction ws) (auto simp: startsWith_prefix split: if_splits)

lemma word_loop_unreachable: "\<not> sublist q t \<Longrightarrow> word_loop q (split_ws t) = None"
proof (rule ccontr)
  assume ns: "\<not> sublist q t" and "word_loop q (split_ws t) \<noteq> None"
  then obtain r where "word_loop q (split_ws t) = Some r" by auto
  then obtain w where w: "w \<in> set (split_ws t)" "prefix q w"
    using word_loop_Some by blast
  then have "sublist q t"
    by (meson prefix_imp_sublist split_ws_sublist sublist_order.order.trans)
  with ns show False by simp
qed

lemma calculateSimilarity_cases:
  "calculateSimilarity query target =
     (let q = trim (toLowerCase query); t = trim (toLowerCase target)
      in if q = t then (1, Exact)
         else if prefix q t then (double (95 / 100), StartsWith)
         else if sublist q t then (double (85 / 100), Contains)
         else (fuzzy_score q t, Fuzzy))"
proof -
  have "max (length q) (length t) = 0 \<longleftrightarrow> q = [] \<and> t = []" for q t :: string
    by (cases q; cases t) simp_all
  then show ?thesis
    by (auto simp: calculateSimilarity_def Let_def startsWith_prefix includes_str_sublist
        word_loop_unreachable simp del: max_nat.eq_neutr_iff)
qed

lemma levenshteinDistance_le_max:
  "levenshteinDistance q t \<le> max (length q) (length t)"
  using lev_rec_le_max [of "rev t" "rev q"]
  by (simp add: levenshteinDistance_lev_rec max.commute)

lemma quotient_range:
  fixes d m :: nat
  assumes "d \<le> m"
  shows "0 \<le> (of_nat d :: rat) / of_nat m \<and> (of_nat d :: rat) / of_nat m \<le> 1"
proof (cases "m = 0")
  case True
  then show ?thesis by simp
next
  case False
  then have "(0::rat) < of_nat m" by simp
  moreover have "(of_nat d :: rat) \<le> of_nat m" using assms by (simp only: of_nat_le_iff)
  ultimately have "(of_nat d :: rat) / of_nat m \<le> 1" by (simp add: divide_le_eq)
  moreover have "0 \<le> (of_nat d :: rat) / of_nat m" by simp
  ultimately show ?thesis by simp
qed

lemma normalized_range:
  fixes d m :: nat
  assumes "d \<le> m"
  shows "0 \<le> double (1 - double (of_nat d / of_nat m))
       \<and> double (1 - double (of_nat d / of_nat m)) \<le> 1"
proof -
  define c :: rat where "c = double (of_nat d / of_nat m)"
  have "0 \<le> c" "c \<le> 1"
    unfolding c_def using quotient_range [OF assms] by (simp_all add: double_nonneg double_le_1)
  then have "0 \<le> 1 - c" "1 - c \<le> 1" by simp_all
  then show ?thesis
    unfolding c_def [symmetric] by (simp add: double_nonneg double_le_1)
qed

lemma fuzzy_score_range: "0 \<le> fuzzy_score q t \<and> fuzzy_score q t \<le> 1"
proof -
  define r :: rat where
    "r = double (1 - double (of_nat (levenshteinDistance q t)
                             / of_nat (max (length q) (length t))))"
  have r: "0 \<le> r" "r \<le> 1"
    unfolding r_def using normalized_range [OF levenshteinDistance_le_max] by simp_all
  have fs: "fuzzy_score q t
            = (if charAt0 q = charAt0 t then min 1 (double (r * double (11 / 10))) else r)"
    by (simp add: fuzzy_score_def Let_def r_def)
  have "0 \<le> r * double (11 / 10)" using r(1) by (simp add: double_nonneg)
  then have "0 \<le> min 1 (double (r * double (11 / 10)))" by (simp add: double_nonneg)
  moreover have "min 1 (double (r * double (11 / 10))) \<le> 1" by simp
  ultimately show ?thesis using r unfolding fs by simp
qed

text \<open>
  Claim C5: for every pair of input strings, the empty ones too, the score that
  \<open>calculateSimilarity\<close> returns lies in the closed interval from 0 to 1; the
  Levenshtein distance of the normalized strings never exceeds the length of the longer
  one, and the boosted fuzzy score is capped at 1.
\<close>

theorem score_in_unit_interval:
  "0 \<le> fst (calculateSimilarity query target) \<and> fst (calculateSimilarity query target) \<le> 1
   \<and> levenshteinDistance (trim (toLowerCase query)) (trim (toLowerCase target))
       \<le> max (length (trim (toLowerCase query))) (length (trim (toLowerCase target)))"
  using fuzzy_score_range levenshteinDistance_le_max
  by (simp add: calculateSimilarity_cases Let_def double_nonneg double_le_1)

text \<open>
  Claim C10: for every pair of input strings, \<open>calculateSimilarity\<close> never returns the
  match type \<open>word\<close>. A word of the normalized target, and any prefix of such a word, is
  a substring of the target, so the contains rule or an earlier rule has already
  returned; the match type is one of exact, startsWith, contains and fuzzy.
\<close>

theorem word_branch_unreachable:
  "snd (calculateSimilarity query target) \<noteq> Word
   \<and> snd (calculateSimilarity query target) \<in> {Exact, StartsWith, Contains, Fuzzy}
   \<and> (includes_str (trim (toLowerCase target)) (trim (toLowerCase query))
        \<or> word_loop (trim (toLowerCase query)) (split_ws (trim (toLowerCase target))) = None)"
proof -
  have "includes_str t q \<or> word_loop q (split_ws t) = None" for q t
    by (cases "sublist q t") (simp_all add: includes_str_sublist word_loop_unreachable)
  then show ?thesis
    by (simp add: calculateSimilarity_cases Let_def)
qed




text \<open>
  A query that equals a word of the target, or starts one, without starting the target
  itself is always scored by the contains rule.
\<close>

lemma word_match_is_contains:
  assumes "q = trim (toLowerCase query)" and "t = trim (toLowerCase target)"
    and "q \<noteq> t" and "\<not> prefix q t"
    and "w \<in> set (split_ws t)" and "prefix q w"
  shows "calculateSimilarity query target = (double (85 / 100), Contains)"
proof -
  have "sublist q t"
    using assms(5,6)
    by (meson prefix_imp_sublist split_ws_sublist sublist_order.order.trans)
  then show ?thesis
    using assms(1-4) by (simp add: calculateSimilarity_cases Let_def)
qed

text \<open>
  Claim C2, at the query \<open>Smith\<close> and the target \<open>John Smith\<close>: the normalized query
  differs from the normalized target, does not start it, and is one of its words, and
  \<open>calculateSimilarity\<close> returns the score 0.85 with the match type \<open>contains\<close>, not
  the score 0.9 with the match type \<open>word\<close>.
\<close>

theorem word_rule_shadowed_by_contains:
  "trim (toLowerCase ''Smith'') \<noteq> trim (toLowerCase ''John Smith'')
   \<and> \<not> prefix (trim (toLowerCase ''Smith'')) (trim (toLowerCase ''John Smith''))
   \<and> trim (toLowerCase ''Smith'') \<in> set (split_ws (trim (toLowerCase ''John Smith'')))
   \<and> calculateSimilarity ''Smith'' ''John Smith'' = (double (85 / 100), Contains)
   \<and> calculateSimilarity ''Smith'' ''John Smith'' \<noteq> (double (9 / 10), Word)"
  by code_simp

lemma levenshteinDistance_Nil2: "levenshteinDistance q [] = length q"
  by (simp add: levenshteinDistance_lev_rec)

lemma fuzzy_score_empty_target: "q \<noteq> [] \<Longrightarrow> fuzzy_score q [] = 0"
  by (cases q) (simp_all add: fuzzy_score_def Let_def levenshteinDistance_Nil2 double_0 double_1)

text \<open>
  Claim C6, as the code has it: let \<open>q\<close> and \<open>t\<close> be the query and the target after
  lower-casing and trimming. When both are empty \<open>calculateSimilarity\<close> returns the score
  1 with the match type \<open>exact\<close>; when only \<open>q\<close> is empty it returns 0.95 with
  \<open>startsWith\<close>; when only \<open>t\<close> is empty it returns 0 with \<open>fuzzy\<close>. The quotient of the
  fuzzy score is only computed for a \<open>fuzzy\<close> result, and then its denominator
  \<open>max(|q|, |t|)\<close> is positive.
\<close>

theorem empty_string_scores:
  assumes "q = trim (toLowerCase query)" and "t = trim (toLowerCase target)"
  shows "(q = [] \<and> t = [] \<longrightarrow> calculateSimilarity query target = (1, Exact))
       \<and> (q = [] \<and> t \<noteq> [] \<longrightarrow> calculateSimilarity query target = (double (95 / 100), StartsWith))
       \<and> (q \<noteq> [] \<and> t = [] \<longrightarrow> calculateSimilarity query target = (0, Fuzzy))
       \<and> (snd (calculateSimilarity query target) = Fuzzy \<longrightarrow> 0 < max (length q) (length t))"
proof -
  have "q \<noteq> t \<Longrightarrow> 0 < max (length q) (length t)"
    by (cases q; cases t) simp_all
  then show ?thesis
    using assms fuzzy_score_empty_target
    by (auto simp: calculateSimilarity_cases Let_def split: if_splits)
qed

theorem empty_string_scores_witness:
  "calculateSimilarity '' '' [] = (1, Exact)
   \<and> calculateSimilarity [] ''abc'' = (double (95 / 100), StartsWith)
   \<and> calculateSimilarity ''abc'' '' '' = (0, Fuzzy)
   \<and> snd (calculateSimilarity ''Jon'' ''John Smith'') = Fuzzy
   \<and> 0 < max (length ''jon'') (length ''john smith'')"
proof -
  have e1: "[] = trim (toLowerCase '' '')" by code_simp
  have e2: "[] = trim (toLowerCase [])" by code_simp
  have a: "''abc'' = trim (toLowerCase ''abc'')" by code_simp
  have q: "''jon'' = trim (toLowerCase ''Jon'')" by code_simp
  have t: "''john smith'' = trim (toLowerCase ''John Smith'')" by code_simp
  have f: "snd (calculateSimilarity ''Jon'' ''John Smith'') = Fuzzy" by code_simp
  show ?thesis
    using empty_string_scores [OF e1 e2] empty_string_scores [OF e2 a]
      empty_string_scores [OF a e1] empty_string_scores [OF q t] f
    by simp
qed

text \<open>
  Claim C6 as stated fails: with an empty query and the target \<open>abc\<close> the result is 0.95
  and \<open>startsWith\<close>, and with the query \<open>abc\<close> and a target of one space the result is 0
  and \<open>fuzzy\<close>.
\<close>

theorem empty_string_not_exact:
  "trim (toLowerCase []) = []
   \<and> calculateSimilarity [] ''abc'' = (double (95 / 100), StartsWith)
   \<and> trim (toLowerCase '' '') = []
   \<and> calculateSimilarity ''abc'' '' '' = (0, Fuzzy)"
  by code_simp

lemma calculateSimilarity_range:
  "calculateSimilarity q t = (1, Exact) \<or> calculateSimilarity q t = (double (95 / 100), StartsWith)
   \<or> calculateSimilarity q t = (double (85 / 100), Contains)
   \<or> (snd (calculateSimilarity q t) = Fuzzy \<and> 0 \<le> fst (calculateSimilarity q t)
       \<and> fst (calculateSimilarity q t) \<le> 1)"
  using fuzzy_score_range by (simp add: calculateSimilarity_cases Let_def)

text \<open>
  Claim C7, as the code has it: when the match type of a first pair has a strictly
  higher priority than that of a second pair, in the order exact, startsWith, word,
  contains, fuzzy, the first score is at least the second, unless the second match type
  is \<open>fuzzy\<close> and the first is not \<open>exact\<close>: a fuzzy score, boosted or not, may exceed
  the score of startsWith, word or contains.
\<close>

theorem score_follows_priority:
  assumes "priority (snd (calculateSimilarity q2 t2)) < priority (snd (calculateSimilarity q1 t1))"
    and "snd (calculateSimilarity q2 t2) \<noteq> Fuzzy \<or> snd (calculateSimilarity q1 t1) = Exact"
  shows "fst (calculateSimilarity q2 t2) \<le> fst (calculateSimilarity q1 t1)"
proof -
  obtain s1 m1 where r1: "calculateSimilarity q1 t1 = (s1, m1)" by (cases "calculateSimilarity q1 t1")
  obtain s2 m2 where r2: "calculateSimilarity q2 t2 = (s2, m2)" by (cases "calculateSimilarity q2 t2")
  have c1: "(s1, m1) = (1, Exact) \<or> (s1, m1) = (double (95 / 100), StartsWith)
            \<or> (s1, m1) = (double (85 / 100), Contains) \<or> (m1 = Fuzzy \<and> 0 \<le> s1 \<and> s1 \<le> 1)"
    using calculateSimilarity_range [of q1 t1] by (simp add: r1)
  have c2: "(s2, m2) = (1, Exact) \<or> (s2, m2) = (double (95 / 100), StartsWith)
            \<or> (s2, m2) = (double (85 / 100), Contains) \<or> (m2 = Fuzzy \<and> 0 \<le> s2 \<and> s2 \<le> 1)"
    using calculateSimilarity_range [of q2 t2] by (simp add: r2)
  have "s2 \<le> s1"
    using c1 c2 assms score_literals unfolding r1 r2 by auto
  then show ?thesis by (simp add: r1 r2)
qed

theorem score_follows_priority_witness:
  "fst (calculateSimilarity ''b'' ''ab'') \<le> fst (calculateSimilarity ''John'' ''john'')
   \<and> fst (calculateSimilarity ''xaaaaaa'' ''yaaaaaa'') \<le> fst (calculateSimilarity ''John'' ''john'')"
proof -
  have p1: "priority (snd (calculateSimilarity ''b'' ''ab''))
            < priority (snd (calculateSimilarity ''John'' ''john''))" by code_simp
  have n1: "snd (calculateSimilarity ''b'' ''ab'') \<noteq> Fuzzy
            \<or> snd (calculateSimilarity ''John'' ''john'') = Exact" by code_simp
  have p2: "priority (snd (calculateSimilarity ''xaaaaaa'' ''yaaaaaa''))
            < priority (snd (calculateSimilarity ''John'' ''john''))" by code_simp
  have n2: "snd (calculateSimilarity ''xaaaaaa'' ''yaaaaaa'') \<noteq> Fuzzy
            \<or> snd (calculateSimilarity ''John'' ''john'') = Exact" by code_simp
  show ?thesis
    using score_follows_priority [OF p1 n1] score_follows_priority [OF p2 n2] by simp
qed

text \<open>
  Claim C7 as stated fails: \<open>b\<close> against \<open>ab\<close> is a contains match of score 0.85, and
  \<open>xaaaaaa\<close> against \<open>yaaaaaa\<close> is a fuzzy match of score 0.8571428571428572 whose first characters
  differ, so the lower priority has the higher score with no boost.
\<close>

theorem unboosted_fuzzy_exceeds_contains:
  "priority (snd (calculateSimilarity ''xaaaaaa'' ''yaaaaaa''))
     < priority (snd (calculateSimilarity ''b'' ''ab''))
   \<and> fst (calculateSimilarity ''b'' ''ab'') < fst (calculateSimilarity ''xaaaaaa'' ''yaaaaaa'')
   \<and> calculateSimilarity ''b'' ''ab'' = (double (85 / 100), Contains)
   \<and> calculateSimilarity ''xaaaaaa'' ''yaaaaaa''
       = (1930114126015927 / 2251799813685248, Fuzzy)
   \<and> charAt0 (trim (toLowerCase ''xaaaaaa'')) \<noteq> charAt0 (trim (toLowerCase ''yaaaaaa''))"
  by code_simp

section \<open>Properties of the service normalization\<close>

lemma longest_prefix_entry_Some:
  "longest_prefix_entry n es = Some (k, v) \<Longrightarrow> (k, v) \<in> set es \<and> 3 \<le> length k \<and> prefix k n"
  by (induction es arbitrary: k v) (auto simp: Let_def split: if_splits option.splits prod.splits)

lemma prefix_loop_longest:
  assumes "\<And>k1 v1 k2 v2. (k1, v1) \<in> set es \<Longrightarrow> (k2, v2) \<in> set es \<Longrightarrow>
             3 \<le> length k1 \<Longrightarrow> 3 \<le> length k2 \<Longrightarrow> prefix k1 k2 \<Longrightarrow> v1 = v2"
  shows "prefix_loop n es = map_option snd (longest_prefix_entry n es)"
  using assms
proof (induction es)
  case Nil
  show ?case by simp
next
  case (Cons e es)
  obtain k v where e: "e = (k, v)" by (cases e)
  have IH: "prefix_loop n es = map_option snd (longest_prefix_entry n es)"
    by (rule Cons.IH) (rule Cons.prems; simp; fail)
  show ?case
  proof (cases "3 \<le> length k \<and> prefix k n")
    case False
    then show ?thesis using IH by (auto simp: e startsWith_prefix Let_def)
  next
    case True
    show ?thesis
    proof (cases "longest_prefix_entry n es")
      case None
      with True show ?thesis by (simp add: e startsWith_prefix)
    next
      case (Some e')
      obtain k' v' where e': "e' = (k', v')" by (cases e')
      have in': "(k', v') \<in> set es" "3 \<le> length k'" "prefix k' n"
        using longest_prefix_entry_Some [of n es k' v'] Some e' by simp_all
      have "prefix k k' \<or> prefix k' k"
        using True in'(3) prefix_same_cases by blast
      then have "v = v'"
      proof
        assume "prefix k k'"
        then show ?thesis
          using Cons.prems [of k v k' v'] True in' by (simp add: e)
      next
        assume "prefix k' k"
        then show ?thesis
          using Cons.prems [of k' v' k v] True in' by (simp add: e)
      qed
      with True Some e' show ?thesis by (simp add: e startsWith_prefix)
    qed
  qed
qed

lemma serviceMap_tags_agree: "tags_agree serviceMap"
  by code_simp

lemma prefix_loop_serviceMap:
  "prefix_loop n serviceMap = map_option snd (longest_prefix_entry n serviceMap)"
proof (rule prefix_loop_longest)
  fix k1 v1 k2 v2
  assume "(k1, v1) \<in> set serviceMap" "(k2, v2) \<in> set serviceMap"
    "3 \<le> length k1" "3 \<le> length k2" "prefix k1 k2"
  then show "v1 = v2"
    using serviceMap_tags_agree unfolding tags_agree_def list_all_iff by fastforce
qed

text \<open>
  Away from the two inherited property names, \<open>parseService\<close> is the normalization of
  the specification: the loop returns the first key that is a prefix, the specification
  asks for the longest one, and both carry the same tag.
\<close>

lemma parseService_agrees:
  assumes "inherited_member (toLowerCase s) = None"
  shows "parseService (Some s) = Service (parseService_spec (Some s))"
  using assms
  by (auto simp: parseService_spec_def serviceMap_get_def prefix_loop_serviceMap Let_def
      split: option.splits)

text \<open>
  Claim C8, at the input \<open>constructor\<close>: the lower-cased string is not a key of the
  service map and no key of at least three characters is a prefix of it, so the
  normalization of the specification is \<open>unknown\<close>; \<open>parseService\<close> returns the function
  \<open>Object\<close> that the map inherits, which is not a service tag at all.
\<close>

theorem parseService_inherited_member:
  "map_of serviceMap (toLowerCase ''constructor'') = None
   \<and> longest_prefix_entry (toLowerCase ''constructor'') serviceMap = None
   \<and> parseService_spec (Some ''constructor'') = Unknown
   \<and> parseService (Some ''constructor'') = Inherited ObjectConstructor
   \<and> parseService (Some ''constructor'') \<noteq> Service Unknown
   \<and> parseService (Some ''__proto__'') = Inherited ObjectPrototype"
  by code_simp

section \<open>Properties of the match ranker\<close>

lemma toLowerCase_service_str: "toLowerCase (service_str tag) = service_str tag"
  by (cases tag; simp add: toLowerCase_def lower_char_def)

lemma parseService_not_inherited:
  "\<not> network_is_inherited c \<Longrightarrow>
     parseService (Some (network c)) = Service (parseService_spec (Some (network c)))"
  unfolding network_is_inherited_def by (simp only: not_not parseService_agrees)

lemma service_matches_tag:
  "\<not> network_is_inherited c \<Longrightarrow>
     service_matches target c = Inr (network_tag c = target)"
  using parseService_not_inherited [of c]
  by (simp add: service_matches_def network_tag_def toLowerCase_service_str
      del: parseService.simps)

lemma service_filter_tag:
  "\<forall>c\<in>set chats. \<not> network_is_inherited c \<Longrightarrow>
     service_filter target chats = Inr (filter (\<lambda>c. network_tag c = target) chats)"
  by (induction chats) (simp_all add: service_matches_tag)

lemma insert_cmp_insort_key:
  "insert_cmp (\<lambda>a b. double (f b - f a)) x ys = insort_key (\<lambda>m. - f m) x ys"
  by (induction ys) (simp_all add: double_le_0_iff)

lemma js_sort_sort_key:
  "js_sort (\<lambda>a b. double (f b - f a)) xs = sort_key (\<lambda>m. - f m) xs"
  by (induction xs) (simp_all add: js_sort_def insert_cmp_insort_key)

lemma js_slice0_take: "0 \<le> k \<Longrightarrow> js_slice0 k xs = take (nat k) xs"
  by (simp add: js_slice0_def)

lemma rankChatMatches_unfold:
  "rankChatMatches chats query options =
     (case (case service_of options of
              None \<Rightarrow> Inr chats
            | Some s \<Rightarrow> service_filter (toLowerCase s) chats) of
        Inl e \<Rightarrow> Inl e
      | Inr matches \<Rightarrow>
          Inr (js_slice0 (maxResults_of options)
                 (sort_key (\<lambda>m. - score m)
                    (filter (\<lambda>m. minScore_of options \<le> score m)
                       (map (score_chat query) matches)))))"
  by (auto simp: rankChatMatches_def service_of_def minScore_of_def maxResults_of_def
      js_sort_sort_key Let_def split: option.splits sum.splits)

lemma rankChatMatches_rank_pipeline:
  assumes "0 \<le> maxResults_of options"
    and "service_of options \<noteq> None \<longrightarrow> (\<forall>c\<in>set chats. \<not> network_is_inherited c)"
  shows "rankChatMatches chats query options =
           Inr (rank_pipeline (minScore_of options) (nat (maxResults_of options)) query
                  (prefiltered (service_of options) chats))"
proof (cases "service_of options")
  case None
  then show ?thesis
    using assms(1)
    by (simp add: rankChatMatches_unfold rank_pipeline_def prefiltered_def js_slice0_take)
next
  case (Some s)
  with assms(2) have "service_filter (toLowerCase s) chats
                      = Inr (filter (\<lambda>c. network_tag c = toLowerCase s) chats)"
    by (simp add: service_filter_tag)
  with Some show ?thesis
    using assms(1)
    by (simp add: rankChatMatches_unfold rank_pipeline_def prefiltered_def js_slice0_take)
qed

lemma sorted_desc_sort_key:
  "sorted_wrt (\<lambda>a b. score b \<le> score a) (sort_key (\<lambda>m. - score m) (xs :: MatchResult list))"
  using sorted_sort_key [of "\<lambda>m. - score m" xs] by (simp add: sorted_map)

lemma stable_sort_key_desc:
  "filter (\<lambda>m. score m = k) (sort_key (\<lambda>m. - score m) (xs :: MatchResult list))
   = filter (\<lambda>m. score m = k) xs"
  using sort_key_stable [of "\<lambda>m. - score m" "- k" xs] by simp

text \<open>
  Claim C1, as the code has it: for every candidate list, query and options with a
  \<open>maxResults\<close> that is not negative, and with no candidate network that lower-cases to
  an inherited property name when a service filter is in force, \<open>rankChatMatches\<close>
  returns the result of the reference pipeline: pre-filter by service when a filter is in
  force, score every remaining title with \<open>calculateSimilarity\<close>, keep the scores of at
  least \<open>minScore\<close> (default 0.4), sort by descending score keeping the order of equal
  scores, and keep the first \<open>maxResults\<close> (default 5) entries. So the result has at most
  \<open>maxResults\<close> entries, each of score at least \<open>minScore\<close>, is sorted by descending
  score, and is the empty list, not an error, when no candidate reaches \<open>minScore\<close>.
\<close>

theorem rankChatMatches_is_pipeline:
  assumes "0 \<le> maxResults_of options"
    and "service_of options \<noteq> None \<longrightarrow> (\<forall>c\<in>set chats. \<not> network_is_inherited c)"
  shows "\<exists>result kept ordered.
      rankChatMatches chats query options = Inr result
    \<and> result = rank_pipeline (minScore_of options) (nat (maxResults_of options)) query
                 (prefiltered (service_of options) chats)
    \<and> kept = filter (\<lambda>m. minScore_of options \<le> score m)
               (map (score_chat query) (prefiltered (service_of options) chats))
    \<and> result = take (nat (maxResults_of options)) ordered
    \<and> mset ordered = mset kept
    \<and> sorted_wrt (\<lambda>a b. score b \<le> score a) ordered
    \<and> (\<forall>k. filter (\<lambda>m. score m = k) ordered = filter (\<lambda>m. score m = k) kept)
    \<and> int (length result) \<le> maxResults_of options
    \<and> (\<forall>m\<in>set result. minScore_of options \<le> score m)
    \<and> sorted_wrt (\<lambda>a b. score b \<le> score a) result
    \<and> (kept = [] \<longrightarrow> result = [])"
proof -
  define kept where "kept = filter (\<lambda>m. minScore_of options \<le> score m)
               (map (score_chat query) (prefiltered (service_of options) chats))"
  define ordered where "ordered = sort_key (\<lambda>m. - score m) kept"
  define result where "result = take (nat (maxResults_of options)) ordered"
  have pipe: "result = rank_pipeline (minScore_of options) (nat (maxResults_of options)) query
                 (prefiltered (service_of options) chats)"
    by (simp add: result_def ordered_def kept_def rank_pipeline_def)
  have run: "rankChatMatches chats query options = Inr result"
    unfolding pipe by (rule rankChatMatches_rank_pipeline [OF assms])
  have ms: "mset ordered = mset kept" by (simp add: ordered_def)
  have so: "sorted_wrt (\<lambda>a b. score b \<le> score a) ordered"
    unfolding ordered_def by (rule sorted_desc_sort_key)
  have st: "\<forall>k. filter (\<lambda>m. score m = k) ordered = filter (\<lambda>m. score m = k) kept"
    unfolding ordered_def by (simp add: stable_sort_key_desc)
  have len: "int (length result) \<le> maxResults_of options"
    using assms(1) by (simp add: result_def)
  have "set result \<subseteq> set kept"
    unfolding result_def using set_take_subset [of _ ordered] ms
    by (metis mset_eq_setD)
  then have sc: "\<forall>m\<in>set result. minScore_of options \<le> score m"
    by (auto simp: kept_def)
  have sr: "sorted_wrt (\<lambda>a b. score b \<le> score a) result"
    unfolding result_def using so by (rule sorted_wrt_take)
  have em: "kept = [] \<longrightarrow> result = []"
    by (simp add: result_def ordered_def)
  from run pipe ms so st len sc sr em kept_def result_def show ?thesis by blast
qed

theorem rankChatMatches_is_pipeline_witness:
  "rankChatMatches
     [chat_of ''Big John'' ''whatsapp'', chat_of ''John Smith'' ''whatsapp'',
      chat_of ''John'' ''telegram'', chat_of ''Johnny'' ''WhatsApp_bridge'',
      chat_of ''John'' ''whatsapp'', chat_of ''Zed'' ''whatsapp'']
     ''John'' (Some \<lparr>service = Some ''WhatsApp'', minScore = None, maxResults = Some 2\<rparr>)
   = Inr [\<lparr>chat = chat_of ''John'' ''whatsapp'', score = 1, matchType = Exact\<rparr>,
          \<lparr>chat = chat_of ''John Smith'' ''whatsapp'', score = double (95 / 100), matchType = StartsWith\<rparr>]"
proof -
  let ?chats = "[chat_of ''Big John'' ''whatsapp'', chat_of ''John Smith'' ''whatsapp'',
      chat_of ''John'' ''telegram'', chat_of ''Johnny'' ''WhatsApp_bridge'',
      chat_of ''John'' ''whatsapp'', chat_of ''Zed'' ''whatsapp'']"
  let ?opts = "Some \<lparr>service = Some ''WhatsApp'', minScore = None, maxResults = Some 2\<rparr>"
  have h1: "0 \<le> maxResults_of ?opts" by code_simp
  have h2: "service_of ?opts \<noteq> None \<longrightarrow> (\<forall>c\<in>set ?chats. \<not> network_is_inherited c)"
    by code_simp
  have ev: "rank_pipeline (minScore_of ?opts) (nat (maxResults_of ?opts)) ''John''
              (prefiltered (service_of ?opts) ?chats)
            = [\<lparr>chat = chat_of ''John'' ''whatsapp'', score = 1, matchType = Exact\<rparr>,
               \<lparr>chat = chat_of ''John Smith'' ''whatsapp'', score = double (95 / 100),
                matchType = StartsWith\<rparr>]"
    by code_simp
  from rankChatMatches_is_pipeline [OF h1 h2, of "''John''"]
  obtain result where "rankChatMatches ?chats ''John'' ?opts = Inr result"
    and "result = rank_pipeline (minScore_of ?opts) (nat (maxResults_of ?opts)) ''John''
                    (prefiltered (service_of ?opts) ?chats)"
    by blast
  with ev show ?thesis by simp
qed

text \<open>
  Claim C1 as stated fails for a negative \<open>maxResults\<close>: \<open>slice(0, -1)\<close> drops the last
  entry only, so with two exact matches the result has one entry, which is more than
  \<open>maxResults = -1\<close>.
\<close>

theorem negative_maxResults_keeps_more:
  "rankChatMatches [chat_of ''John'' ''whatsapp'', chat_of ''John'' ''telegram'']
     ''John'' (Some \<lparr>service = None, minScore = None, maxResults = Some (- 1)\<rparr>)
   = Inr [\<lparr>chat = chat_of ''John'' ''whatsapp'', score = 1, matchType = Exact\<rparr>]
   \<and> \<not> int (length [\<lparr>chat = chat_of ''John'' ''whatsapp'', score = 1, matchType = Exact\<rparr>])
         \<le> - 1"
  by code_simp

text \<open>
  With a service filter in force, a candidate whose network lower-cases to an inherited
  property name makes the ranker throw.
\<close>

lemma rankChatMatches_TypeError:
  "rankChatMatches [chat_of ''Sarah'' ''Constructor''] ''Sarah''
     (Some \<lparr>service = Some ''telegram'', minScore = None, maxResults = None\<rparr>)
   = Inl TypeError"
  by code_simp

lemma network_tag_is_tag:
  "\<not> network_is_inherited c \<Longrightarrow> \<exists>tag. network_tag c = service_str tag"
proof -
  assume "\<not> network_is_inherited c"
  then have "network_tag c = service_str (parseService_spec (Some (network c)))"
    using parseService_not_inherited [of c]
    by (simp add: network_tag_def del: parseService.simps)
  then show ?thesis by blast
qed

text \<open>
  Claim C3, as the code has it: when \<open>rankChatMatches\<close> is called with a service filter
  string \<open>s\<close> that is not empty, and no candidate network lower-cases to an inherited
  property name, a candidate is retained for scoring if and only if the tag that
  \<open>parseService\<close> gives for its network equals \<open>s\<close> lower-cased; \<open>s\<close> itself is not
  normalized. The equality is strict, and the other candidates are excluded before
  scoring: the result is the ranking of the retained candidates alone. A filter string
  that is not a tag when lower-cased, such as \<open>beeper\<close>, retains no candidate.
\<close>

theorem service_filter_strict_equality:
  assumes "s \<noteq> []" and "\<forall>c\<in>set chats. \<not> network_is_inherited c"
  shows "service_filter (toLowerCase s) chats
           = Inr (filter (\<lambda>c. network_tag c = toLowerCase s) chats)
       \<and> rankChatMatches chats query
           (Some \<lparr>service = Some s, minScore = mn, maxResults = mx\<rparr>)
         = rankChatMatches (filter (\<lambda>c. network_tag c = toLowerCase s) chats) query
             (Some \<lparr>service = None, minScore = mn, maxResults = mx\<rparr>)
       \<and> ((\<forall>tag. service_str tag \<noteq> toLowerCase s) \<longrightarrow>
            rankChatMatches chats query
              (Some \<lparr>service = Some s, minScore = mn, maxResults = mx\<rparr>) = Inr [])"
proof -
  let ?kept = "filter (\<lambda>c. network_tag c = toLowerCase s) chats"
  have f: "service_filter (toLowerCase s) chats = Inr ?kept"
    using assms(2) by (rule service_filter_tag)
  have r: "rankChatMatches chats query (Some \<lparr>service = Some s, minScore = mn, maxResults = mx\<rparr>)
         = rankChatMatches ?kept query (Some \<lparr>service = None, minScore = mn, maxResults = mx\<rparr>)"
    using assms(1) f
    by (simp add: rankChatMatches_unfold service_of_def minScore_of_def maxResults_of_def)
  have e: "rankChatMatches chats query
              (Some \<lparr>service = Some s, minScore = mn, maxResults = mx\<rparr>) = Inr []"
    if "\<forall>tag. service_str tag \<noteq> toLowerCase s"
  proof -
    have "?kept = []"
      using that assms(2) network_tag_is_tag by (fastforce simp: filter_empty_conv)
    then show ?thesis
      unfolding r by (simp add: rankChatMatches_unfold service_of_def js_slice0_def)
  qed
  from f r e show ?thesis by blast
qed

theorem service_filter_strict_equality_witness:
  "rankChatMatches [chat_of ''Sarah'' ''beeper'', chat_of ''Sarah'' ''telegram''] ''Sarah''
     (Some \<lparr>service = Some ''Matrix'', minScore = None, maxResults = None\<rparr>)
   = Inr [\<lparr>chat = chat_of ''Sarah'' ''beeper'', score = 1, matchType = Exact\<rparr>]
   \<and> rankChatMatches [chat_of ''Sarah'' ''beeper'', chat_of ''Sarah'' ''telegram''] ''Sarah''
     (Some \<lparr>service = Some ''beeper'', minScore = None, maxResults = None\<rparr>)
   = Inr []"
proof -
  let ?chats = "[chat_of ''Sarah'' ''beeper'', chat_of ''Sarah'' ''telegram'']"
  have m: "''Matrix'' \<noteq> []" and b: "''beeper'' \<noteq> []" by simp_all
  have h: "\<forall>c\<in>set ?chats. \<not> network_is_inherited c" by code_simp
  have n: "\<forall>tag. service_str tag \<noteq> toLowerCase ''beeper''"
  proof
    fix tag show "service_str tag \<noteq> toLowerCase ''beeper''"
      by (cases tag; simp add: toLowerCase_def lower_char_def)
  qed
  have ev: "rankChatMatches (filter (\<lambda>c. network_tag c = toLowerCase ''Matrix'') ?chats)
              ''Sarah'' (Some \<lparr>service = None, minScore = None, maxResults = None\<rparr>)
            = Inr [\<lparr>chat = chat_of ''Sarah'' ''beeper'', score = 1, matchType = Exact\<rparr>]"
    by code_simp
  have 1: "rankChatMatches ?chats ''Sarah''
             (Some \<lparr>service = Some ''Matrix'', minScore = None, maxResults = None\<rparr>)
           = Inr [\<lparr>chat = chat_of ''Sarah'' ''beeper'', score = 1, matchType = Exact\<rparr>]"
    using service_filter_strict_equality [OF m h, of "''Sarah''" None None] ev
    by (simp only:)
  have 2: "rankChatMatches ?chats ''Sarah''
             (Some \<lparr>service = Some ''beeper'', minScore = None, maxResults = None\<rparr>)
           = Inr []"
    using service_filter_strict_equality [OF b h, of "''Sarah''" None None] n
    by blast
  from 1 2 show ?thesis by (rule conjI)
qed

text \<open>
  Claim C3 as stated fails: the filter string \<open>beeper\<close> and the network \<open>beeper\<close> both
  normalize to \<open>matrix\<close> and the title equals the query, yet the candidate is not
  retained and the result is empty.
\<close>

theorem alias_filter_retains_nothing:
  "parseService (Some ''beeper'') = Service Matrix
   \<and> parseService (Some (network (chat_of ''Sarah'' ''beeper''))) = Service Matrix
   \<and> calculateSimilarity ''Sarah'' (title (chat_of ''Sarah'' ''beeper'')) = (1, Exact)
   \<and> service_matches (toLowerCase ''beeper'') (chat_of ''Sarah'' ''beeper'') = Inr False
   \<and> rankChatMatches [chat_of ''Sarah'' ''beeper''] ''Sarah''
       (Some \<lparr>service = Some ''beeper'', minScore = None, maxResults = None\<rparr>) = Inr []"
  by code_simp

end
